theory Spec2Isabelle
  imports Main
begin

section \<open>JavaScript values\<close>

text \<open>
  The values a request field or a field of a parsed JSON secret can hold. Objects and
  arrays are opaque: the code only tests them for truthiness. \<open>JUndefined\<close> is what
  reading an absent property gives. JSON numbers are modelled as integers; the code
  only tests them for truthiness, and zero is the one falsy number JSON can hold.
\<close>

datatype jsval = JUndefined | JNull | JBool bool | JNum int | JStr string | JObject

text \<open>JavaScript's \<open>!!v\<close>.\<close>

fun truthy :: "jsval \<Rightarrow> bool" where
  "truthy JUndefined = False"
| "truthy JNull = False"
| "truthy (JBool b) = b"
| "truthy (JNum n) = (n \<noteq> 0)"
| "truthy (JStr s) = (s \<noteq> [])"
| "truthy JObject = True"

section \<open>Token verification (db/tokenVerifier)\<close>

text \<open>
  A row of \<open>api_tokens\<close> as the query selects it. Timestamps are milliseconds since the
  epoch, the value a \<open>Date\<close> compares by. \<open>expires_at\<close> and \<open>is_active\<close> may be SQL
  NULL (\<open>None\<close>).
\<close>

record token_record =
  user_id :: string
  expires_at :: "int option"
  is_active :: "bool option"
  created_at :: int

text \<open>
  The verification result object. The source builds it with different sets of
  properties on different paths; a property that is absent or \<open>null\<close> is \<open>None\<close>.
\<close>

record vresult =
  isValid :: bool
  userId :: "string option"
  error :: "string option"
  expiresAt :: "int option"
  isActive :: "bool option"
  createdAt :: "int option"

record cache_entry =
  result :: vresult
  cachedAt :: int

text \<open>
  What \<open>query(sql, [token])\<close> of the connection pool does for a given token: it throws
  (pool acquisition or execution failed), or it returns rows.
\<close>

datatype query_outcome = QueryThrows string | Rows "token_record list"

text \<open>
  The module state: the \<open>tokenCache\<close> map, and a log of the parameter of every
  \<open>query\<close> call made so far (instrumentation; the source keeps no such log).
\<close>

record verifier_state =
  tokenCache :: "string \<rightharpoonup> cache_entry"
  queryLog :: "string list"

text \<open>
  The four clock readings of one \<open>verifyToken\<close> call, in source order:
  \<open>Date.now()\<close> at the cache lookup, \<open>new Date()\<close> at the cached-expiry test,
  \<open>new Date()\<close> inside \<open>queryDatabase\<close>, and \<open>Date.now()\<close> when the entry is stored.
\<close>

record clock =
  atLookup :: int
  atExpiryCheck :: int
  atQuery :: int
  atStore :: int

definition tokenRequired :: vresult where
  "tokenRequired = \<lparr>isValid = False, userId = None, error = Some ''Token is required'',
     expiresAt = None, isActive = None, createdAt = None\<rparr>"

definition verificationFailed :: vresult where
  "verificationFailed = \<lparr>isValid = False, userId = None,
     error = Some ''Token verification failed'',
     expiresAt = None, isActive = None, createdAt = None\<rparr>"

text \<open>
  \<open>queryDatabase\<close>: \<open>Inl\<close> is the rethrown query error. \<open>now\<close> is the \<open>new Date()\<close>
  taken after the rows arrive. \<open>is_active === false\<close> is strict, so a NULL
  \<open>is_active\<close> passes the check.
\<close>

definition queryDatabase :: "(string \<Rightarrow> query_outcome) \<Rightarrow> int \<Rightarrow> string \<Rightarrow> string + vresult" where
  "queryDatabase store now token =
     (case store token of
        QueryThrows e \<Rightarrow> Inl e
      | Rows rows \<Rightarrow>
          (case rows of
             [] \<Rightarrow> Inr \<lparr>isValid = False, userId = None, error = Some ''Token not found'',
                        expiresAt = None, isActive = None, createdAt = None\<rparr>
           | tokenRecord # _ \<Rightarrow>
               if is_active tokenRecord = Some False then
                 Inr \<lparr>isValid = False, userId = Some (user_id tokenRecord),
                       error = Some ''Token is inactive'',
                       expiresAt = None, isActive = None, createdAt = None\<rparr>
               else if (case expires_at tokenRecord of None \<Rightarrow> False | Some e \<Rightarrow> e < now) then
                 Inr \<lparr>isValid = False, userId = Some (user_id tokenRecord),
                       error = Some ''Token has expired'',
                       expiresAt = expires_at tokenRecord, isActive = None, createdAt = None\<rparr>
               else
                 Inr \<lparr>isValid = True, userId = Some (user_id tokenRecord), error = None,
                       expiresAt = expires_at tokenRecord, isActive = is_active tokenRecord,
                       createdAt = Some (created_at tokenRecord)\<rparr>))"

text \<open>
  The cache lookup block of \<open>verifyToken\<close> (from \<open>tokenCache.get\<close> to the end of the
  \<open>if (cached)\<close> statement). \<open>Some r\<close>: the block returned \<open>r\<close>. \<open>None\<close>: control
  falls through to the database query. The second component is the cache afterwards.
\<close>

definition checkCache ::
  "int \<Rightarrow> clock \<Rightarrow> string \<Rightarrow> (string \<rightharpoonup> cache_entry) \<Rightarrow> vresult option \<times> (string \<rightharpoonup> cache_entry)" where
  "checkCache ttl clk token cache =
     (case cache token of
        None \<Rightarrow> (None, cache)
      | Some cached \<Rightarrow>
          if atLookup clk - cachedAt cached < ttl then
            (if isValid (result cached) \<and> expiresAt (result cached) \<noteq> None then
               (if the (expiresAt (result cached)) < atExpiryCheck clk
                then (None, cache(token := None))
                else (Some (result cached), cache))
             else (Some (result cached), cache))
          else (None, cache(token := None)))"

text \<open>
  The query block of \<open>verifyToken\<close> (its \<open>try\<close>/\<open>catch\<close>): runs after a fall-through,
  on the state the lookup block left.
\<close>

definition queryAndStore ::
  "(string \<Rightarrow> query_outcome) \<Rightarrow> clock \<Rightarrow> string \<Rightarrow> verifier_state \<Rightarrow> vresult \<times> verifier_state" where
  "queryAndStore store clk token s =
     (let s1 = s\<lparr>queryLog := queryLog s @ [token]\<rparr> in
      case queryDatabase store (atQuery clk) token of
        Inl e \<Rightarrow> (verificationFailed, s1)
      | Inr r \<Rightarrow>
          if isValid r
          then (r, s1\<lparr>tokenCache := (tokenCache s1)(token \<mapsto> \<lparr>result = r, cachedAt = atStore clk\<rparr>)\<rparr>)
          else (r, s1))"

text \<open>
  \<open>verifyToken\<close>. \<open>ttl\<close> is \<open>CACHE_TTL\<close> in milliseconds. The result is a sum because
  the function is \<open>async\<close> and its caller guards it with \<open>try\<close>; no path of the body
  produces \<open>Inl\<close>, since the one fallible call sits inside the function's own \<open>try\<close>.
\<close>

definition verifyToken ::
  "int \<Rightarrow> (string \<Rightarrow> query_outcome) \<Rightarrow> clock \<Rightarrow> jsval \<Rightarrow> verifier_state
     \<Rightarrow> (string + vresult) \<times> verifier_state" where
  "verifyToken ttl store clk token s =
     (case token of
        JStr t \<Rightarrow>
          if t = [] then (Inr tokenRequired, s)
          else
            (case checkCache ttl clk t (tokenCache s) of
               (Some r, cache') \<Rightarrow> (Inr r, s\<lparr>tokenCache := cache'\<rparr>)
             | (None, cache') \<Rightarrow>
                 (case queryAndStore store clk t (s\<lparr>tokenCache := cache'\<rparr>) of
                    (r, s') \<Rightarrow> (Inr r, s')))
      | _ \<Rightarrow> (Inr tokenRequired, s))"

section \<open>The request handler's token gate\<close>

text \<open>
  The response object: status code and the JSON body before \<open>JSON.stringify\<close> (every
  body built here is an object of string properties). The headers are the same constant
  on every path and are left out.
\<close>

record response =
  statusCode :: nat
  body :: "(string \<times> string) list"

text \<open>
  The part of \<open>handler\<close> from the \<open>token\<close> check to the end of the verification check.
  \<open>Some resp\<close>: the handler returned \<open>resp\<close> there. \<open>None\<close>: the request passed the gate
  and goes on to rendering, which is not modelled.
\<close>

definition handler ::
  "int \<Rightarrow> (string \<Rightarrow> query_outcome) \<Rightarrow> clock \<Rightarrow> jsval \<Rightarrow> verifier_state
     \<Rightarrow> response option \<times> verifier_state" where
  "handler ttl store clk token s =
     (if \<not> truthy token then
        (Some \<lparr>statusCode = 401, body = [(''error'', ''Missing API token'')]\<rparr>, s)
      else
        (case verifyToken ttl store clk token s of
           (Inl e, s') \<Rightarrow>
             (Some \<lparr>statusCode = 503,
                    body = [(''error'', ''Service temporarily unavailable''),
                            (''message'', ''Unable to verify token. Please try again later.'')]\<rparr>, s')
         | (Inr tokenVerification, s') \<Rightarrow>
             if \<not> isValid tokenVerification then
               (Some \<lparr>statusCode = 401,
                      body = [(''error'',
                        (case error tokenVerification of
                           None \<Rightarrow> ''Invalid or missing API token''
                         | Some m \<Rightarrow> if m = [] then ''Invalid or missing API token'' else m))]\<rparr>, s')
             else (None, s')))"

section \<open>Secrets Manager credentials (utils/secretsManager)\<close>

text \<open>
  The connection parameters \<open>getDatabaseCredentials\<close> memoizes and returns. They are the
  values of the parsed secret, so they are JavaScript values.
\<close>

record credentials =
  host :: jsval
  port :: jsval
  database :: jsval
  user :: jsval
  password :: jsval

text \<open>
  What fetching and parsing the secret gives: \<open>client.send\<close> throws, \<open>JSON.parse\<close>
  throws, or a parsed value. A parsed value other than \<open>null\<close> is its property read
  \<open>secret[field]\<close>, which is \<open>JUndefined\<close> for an absent property (and for every
  property of a number, string, boolean or array payload). The parsed value \<open>null\<close> is
  \<open>SecretNull\<close>: reading a property of it throws a \<open>TypeError\<close>.
\<close>

datatype fetch_outcome =
    SendThrows string
  | ParseThrows string
  | SecretNull
  | Secret "string \<Rightarrow> jsval"

definition requiredFields :: "string list" where
  "requiredFields = [''host'', ''port'', ''database'', ''username'', ''password'']"

text \<open>\<open>Array.prototype.join(', ')\<close> on strings.\<close>

fun join :: "string list \<Rightarrow> string" where
  "join [] = []"
| "join [x] = x"
| "join (x # y # ys) = x @ '', '' @ join (y # ys)"

text \<open>
  \<open>getDatabaseCredentials\<close>. The state is the module variable \<open>cachedCredentials\<close>.
  \<open>Inl\<close> carries the message of the thrown \<open>Error\<close>: every failure inside the \<open>try\<close> is
  caught and rethrown as a plain \<open>Error\<close> whose message is prefixed.
  On a \<open>null\<close> payload the filter throws at its first field, \<open>host\<close>, with the
  engine's message for a property read of \<open>null\<close>.
\<close>

definition getDatabaseCredentials ::
  "string \<Rightarrow> fetch_outcome \<Rightarrow> credentials option \<Rightarrow> (string + credentials) \<times> credentials option" where
  "getDatabaseCredentials secretName fetched cachedCredentials =
     (case cachedCredentials of
        Some c \<Rightarrow> (Inr c, cachedCredentials)
      | None \<Rightarrow>
          if secretName = [] then
            (Inl ''DB_SECRET_NAME environment variable is not set'', cachedCredentials)
          else
            (case fetched of
               SendThrows m \<Rightarrow>
                 (Inl (''Failed to retrieve database credentials: '' @ m), cachedCredentials)
             | ParseThrows m \<Rightarrow>
                 (Inl (''Failed to retrieve database credentials: '' @ m), cachedCredentials)
             | SecretNull \<Rightarrow>
                 (Inl (''Failed to retrieve database credentials: '' @
                       ''Cannot read properties of null (reading '' @ [CHR 0x27] @ ''host'' @
                       [CHR 0x27] @ '')''),
                  cachedCredentials)
             | Secret secret \<Rightarrow>
                 (let missingFields = filter (\<lambda>field. \<not> truthy (secret field)) requiredFields in
                  if length missingFields > 0 then
                    (Inl (''Failed to retrieve database credentials: '' @
                          ''Secret is missing required fields: '' @ join missingFields),
                     cachedCredentials)
                  else
                    (let c = \<lparr>host = secret ''host'',
                              port = (if truthy (secret ''port'') then secret ''port'' else JNum 5432),
                              database = secret ''database'',
                              user = secret ''username'',
                              password = secret ''password''\<rparr>
                     in (Inr c, Some c)))))"

section \<open>The connection pool (db/connectionPool)\<close>

text \<open>
  JavaScript runs each \<open>async\<close> function without interruption from one \<open>await\<close> to the
  next, so \<open>getPool\<close> and \<open>initializePool\<close> are modelled as the segments between their
  suspension points, each an atomic step on the module state; an event list interleaves
  the segments of different invocations.

  A promise is its identity and its settlement state. Pool objects and promises are
  named by the number of the \<open>initializePool\<close> invocation that made them.
\<close>

datatype promise_state = Pending | Fulfilled nat | Rejected string

record promise =
  pid :: nat
  pstate :: promise_state

text \<open>
  The module variables \<open>pool\<close>, \<open>isInitializing\<close>, \<open>initPromise\<close>, and three counters
  (instrumentation): invocations of \<open>initializePool\<close>, calls of
  \<open>getDatabaseCredentials\<close>, and \<open>new Pool\<close> constructions.
\<close>

record pool_state =
  pool :: "nat option"
  isInitializing :: bool
  initPromise :: "promise option"
  attempts :: nat
  secretResolutions :: nat
  poolConstructions :: nat

text \<open>
  What the environment does to an attempt after its first \<open>await\<close>: the credentials
  call rejects; or it resolves, the pool is constructed and the test connection
  rejects; or the test connection succeeds.
\<close>

datatype attempt_outcome = CredentialsFail string | ConnectFail string | Connected

text \<open>
  The environment: \<open>process.env.DB_SECRET_NAME\<close> (empty when unset) and the outcome of
  each attempt, by attempt number.
\<close>

record environment =
  dbSecretName :: string
  outcome :: "nat \<Rightarrow> attempt_outcome"

definition initial :: pool_state where
  "initial = \<lparr>pool = None, isInitializing = False, initPromise = None,
     attempts = 0, secretResolutions = 0, poolConstructions = 0\<rparr>"

text \<open>
  \<open>initializePool\<close>, first segment: up to \<open>await getDatabaseCredentials(secretName)\<close>.
  With the secret name unset it throws at once, the \<open>catch\<close> resets \<open>pool\<close>, and the
  promise it returns is already rejected. Returns the promise and the state.
\<close>

definition initializePool_start :: "environment \<Rightarrow> pool_state \<Rightarrow> promise \<times> pool_state" where
  "initializePool_start env s =
     (let p = attempts s; s1 = s\<lparr>attempts := Suc p\<rparr> in
      if dbSecretName env = [] then
        (\<lparr>pid = p, pstate = Rejected ''DB_SECRET_NAME environment variable is not set''\<rparr>,
         s1\<lparr>pool := None\<rparr>)
      else
        (\<lparr>pid = p, pstate = Pending\<rparr>,
         s1\<lparr>secretResolutions := Suc (secretResolutions s1)\<rparr>))"

text \<open>
  \<open>initializePool\<close>, the rest of attempt \<open>p\<close>: how its promise settles and what it
  leaves in the state. Nothing here reads \<open>isInitializing\<close> or \<open>initPromise\<close>, so the two
  suspensions inside it are taken as one step.
\<close>

definition initializePool_finish :: "environment \<Rightarrow> nat \<Rightarrow> pool_state \<Rightarrow> promise_state \<times> pool_state" where
  "initializePool_finish env p s =
     (case outcome env p of
        CredentialsFail e \<Rightarrow> (Rejected e, s\<lparr>pool := None\<rparr>)
      | ConnectFail e \<Rightarrow>
          (Rejected e, s\<lparr>poolConstructions := Suc (poolConstructions s), pool := None\<rparr>)
      | Connected \<Rightarrow>
          (Fulfilled p, s\<lparr>poolConstructions := Suc (poolConstructions s)\<rparr>))"

text \<open>
  What one call of \<open>getPool\<close> does before it returns or suspends: it returns the
  existing pool, or returns the shared \<open>initPromise\<close>, or starts an attempt and suspends
  on its promise.
\<close>

datatype handle = ReturnsPool nat | ReturnsPromise nat | StartsInit nat

definition getPool_call :: "environment \<Rightarrow> pool_state \<Rightarrow> handle \<times> pool_state" where
  "getPool_call env s =
     (case pool s of
        Some pl \<Rightarrow> (ReturnsPool pl, s)
      | None \<Rightarrow>
          (case (if isInitializing s then initPromise s else None) of
             Some pr \<Rightarrow> (ReturnsPromise (pid pr), s)
           | None \<Rightarrow>
               (case initializePool_start env (s\<lparr>isInitializing := True\<rparr>) of
                  (pr, s1) \<Rightarrow> (StartsInit (pid pr), s1\<lparr>initPromise := Some pr\<rparr>))))"

text \<open>
  The continuation of the starting call after \<open>await initPromise\<close>, run once that
  promise is settled: on fulfilment \<open>pool\<close> is set and returned, on rejection the error
  propagates (\<open>Inl\<close>); the \<open>finally\<close> block clears the guard on both paths. A
  pending promise does not resume its awaiter; \<open>step\<close> never runs that case.
\<close>

definition getPool_resume :: "promise_state \<Rightarrow> pool_state \<Rightarrow> (string + nat) \<times> pool_state" where
  "getPool_resume settled s =
     (case settled of
        Fulfilled newPool \<Rightarrow>
          (Inr newPool, s\<lparr>pool := Some newPool, isInitializing := False, initPromise := None\<rparr>)
      | Rejected e \<Rightarrow> (Inl e, s\<lparr>isInitializing := False, initPromise := None\<rparr>)
      | Pending \<Rightarrow> (Inl [], s))"

text \<open>
  Events of the event loop and what each one shows. \<open>InitFinishes\<close> is enabled while
  the published promise is pending, \<open>OwnerResumes\<close> once it is settled; a disabled event
  changes nothing.
\<close>

datatype event = GetPool | InitFinishes | OwnerResumes

datatype observation =
    Called handle
  | Settled nat promise_state
  | OwnerGot "string + nat"
  | Disabled

definition step :: "environment \<Rightarrow> event \<Rightarrow> pool_state \<Rightarrow> observation \<times> pool_state" where
  "step env ev s =
     (case ev of
        GetPool \<Rightarrow> (case getPool_call env s of (h, s') \<Rightarrow> (Called h, s'))
      | InitFinishes \<Rightarrow>
          (case initPromise s of
             None \<Rightarrow> (Disabled, s)
           | Some pr \<Rightarrow>
               if pstate pr = Pending then
                 (case initializePool_finish env (pid pr) s of
                    (st, s') \<Rightarrow> (Settled (pid pr) st, s'\<lparr>initPromise := Some (pr\<lparr>pstate := st\<rparr>)\<rparr>))
               else (Disabled, s))
      | OwnerResumes \<Rightarrow>
          (case initPromise s of
             None \<Rightarrow> (Disabled, s)
           | Some pr \<Rightarrow>
               if pstate pr = Pending then (Disabled, s)
               else (case getPool_resume (pstate pr) s of (r, s') \<Rightarrow> (OwnerGot r, s'))))"

fun run :: "environment \<Rightarrow> event list \<Rightarrow> pool_state \<Rightarrow> observation list \<times> pool_state" where
  "run env [] s = ([], s)"
| "run env (ev # evs) s =
     (case step env ev s of
        (ob, s') \<Rightarrow> (case run env evs s' of (obs, s'') \<Rightarrow> (ob # obs, s'')))"

section \<open>Invariant and example data\<close>

text \<open>The cache invariant: every stored entry holds a result with \<open>isValid = true\<close>.\<close>

definition cacheInv :: "(string \<rightharpoonup> cache_entry) \<Rightarrow> bool" where
  "cacheInv cache = (\<forall>k e. cache k = Some e \<longrightarrow> isValid (result e))"

text \<open>Concrete data for the instances below.\<close>

definition exClock :: "int \<Rightarrow> clock" where
  "exClock n = \<lparr>atLookup = n, atExpiryCheck = n, atQuery = n + 1, atStore = n + 2\<rparr>"

definition emptyState :: verifier_state where
  "emptyState = \<lparr>tokenCache = Map.empty, queryLog = []\<rparr>"

definition notFound :: vresult where
  "notFound = \<lparr>isValid = False, userId = None, error = Some ''Token not found'',
     expiresAt = None, isActive = None, createdAt = None\<rparr>"

definition exRecord :: token_record where
  "exRecord = \<lparr>user_id = ''u1'', expires_at = None, is_active = Some True, created_at = 5\<rparr>"

definition exValid :: vresult where
  "exValid = \<lparr>isValid = True, userId = Some ''u1'', error = None,
     expiresAt = None, isActive = Some True, createdAt = Some 5\<rparr>"

definition expiringRecord :: token_record where
  "expiringRecord = \<lparr>user_id = ''u1'', expires_at = Some 5000, is_active = Some True, created_at = 5\<rparr>"

definition expiringValid :: vresult where
  "expiringValid = \<lparr>isValid = True, userId = Some ''u1'', error = None,
     expiresAt = Some 5000, isActive = Some True, createdAt = Some 5\<rparr>"

definition negEntry :: cache_entry where
  "negEntry = \<lparr>result = notFound, cachedAt = 1000\<rparr>"

definition inactiveRecord :: token_record where
  "inactiveRecord = \<lparr>user_id = ''u7'', expires_at = None, is_active = Some False, created_at = 5\<rparr>"


definition userPayload :: "string \<Rightarrow> jsval" where
  "userPayload field =
     (if field = ''host'' then JStr ''db.internal''
      else if field = ''port'' then JNum 5432
      else if field = ''database'' then JStr ''app''
      else if field = ''user'' then JStr ''svc''
      else if field = ''password'' then JStr ''pw''
      else JUndefined)"

definition zeroPortPayload :: "string \<Rightarrow> jsval" where
  "zeroPortPayload field =
     (if field = ''host'' then JStr ''db.internal''
      else if field = ''port'' then JNum 0
      else if field = ''database'' then JStr ''app''
      else if field = ''username'' then JStr ''svc''
      else if field = ''password'' then JStr ''pw''
      else JUndefined)"

definition goodPayload :: "string \<Rightarrow> jsval" where
  "goodPayload field =
     (if field = ''host'' then JStr ''db.internal''
      else if field = ''port'' then JNum 6432
      else if field = ''database'' then JStr ''app''
      else if field = ''username'' then JStr ''svc''
      else if field = ''password'' then JStr ''pw''
      else JUndefined)"

definition healthy :: environment where
  "healthy = \<lparr>dbSecretName = ''prod/db'', outcome = (\<lambda>_. Connected)\<rparr>"

definition flaky :: environment where
  "flaky = \<lparr>dbSecretName = ''prod/db'',
             outcome = (\<lambda>k. if k = 0 then ConnectFail ''timeout'' else Connected)\<rparr>"

section \<open>Properties of token verification\<close>

lemma verifyToken_never_throws: "\<exists>r. fst (verifyToken ttl store clk token s) = Inr r"
  by (cases token) (auto simp: verifyToken_def split: prod.splits option.splits)

lemma checkCache_cases:
  "checkCache ttl clk t cache = (out, cache') \<Longrightarrow>
     (out = None \<and> (cache' = cache \<and> cache t = None \<or> cache' = cache(t := None)))
   \<or> (\<exists>c. out = Some (result c) \<and> cache t = Some c \<and> cache' = cache)"
  by (auto simp: checkCache_def split: option.splits if_splits)

lemma checkCache_inv: "cacheInv cache \<Longrightarrow> cacheInv (snd (checkCache ttl clk t cache))"
  by (auto simp: checkCache_def cacheInv_def split: option.splits if_splits)

lemma checkCache_hit_valid:
  "cacheInv cache \<Longrightarrow> checkCache ttl clk t cache = (Some r, cache') \<Longrightarrow> isValid r"
  by (auto simp: checkCache_def cacheInv_def split: option.splits if_splits)

lemma checkCache_miss_absent:
  "checkCache ttl clk t cache = (None, cache') \<Longrightarrow> cache' t = None \<and> cache' \<subseteq>\<^sub>m cache"
  by (auto simp: checkCache_def map_le_def split: option.splits if_splits)

lemma queryAndStore_inv:
  "cacheInv (tokenCache s) \<Longrightarrow> cacheInv (tokenCache (snd (queryAndStore store clk t s)))"
  by (auto simp: queryAndStore_def cacheInv_def Let_def split: sum.splits)

lemma queryAndStore_log:
  "queryLog (snd (queryAndStore store clk t s)) = queryLog s @ [t]"
  by (auto simp: queryAndStore_def Let_def split: sum.splits)

lemma queryAndStore_invalid:
  "queryAndStore store clk t s = (r, s') \<Longrightarrow> \<not> isValid r \<Longrightarrow> tokenCache s' = tokenCache s"
  by (auto simp: queryAndStore_def Let_def split: sum.splits if_splits)

lemma verifyToken_inv:
  assumes "cacheInv (tokenCache s)"
  shows "cacheInv (tokenCache (snd (verifyToken ttl store clk token s)))"
proof (cases token)
  case (JStr t)
  show ?thesis
  proof (cases "t = []")
    case True
    with JStr assms show ?thesis by (simp add: verifyToken_def)
  next
    case False
    obtain out cache' where cc: "checkCache ttl clk t (tokenCache s) = (out, cache')"
      by (cases "checkCache ttl clk t (tokenCache s)")
    have inv': "cacheInv cache'"
      using checkCache_inv [OF assms, of ttl clk t] cc by simp
    show ?thesis
    proof (cases out)
      case None
      have "cacheInv (tokenCache (snd (queryAndStore store clk t (s\<lparr>tokenCache := cache'\<rparr>))))"
        by (rule queryAndStore_inv) (simp add: inv')
      with JStr False cc None show ?thesis
        by (auto simp: verifyToken_def split: prod.splits)
    next
      case (Some r)
      with JStr False cc inv' show ?thesis by (simp add: verifyToken_def)
    qed
  qed
qed (use assms in \<open>simp_all add: verifyToken_def\<close>)

lemma verifyToken_hit:
  "t \<noteq> [] \<Longrightarrow> checkCache ttl clk t (tokenCache s) = (Some r, cache') \<Longrightarrow>
     verifyToken ttl store clk (JStr t) s = (Inr r, s\<lparr>tokenCache := cache'\<rparr>)"
  by (simp add: verifyToken_def)

lemma verifyToken_miss:
  "t \<noteq> [] \<Longrightarrow> checkCache ttl clk t (tokenCache s) = (None, cache') \<Longrightarrow>
     verifyToken ttl store clk (JStr t) s =
       (Inr (fst (queryAndStore store clk t (s\<lparr>tokenCache := cache'\<rparr>))),
        snd (queryAndStore store clk t (s\<lparr>tokenCache := cache'\<rparr>)))"
  by (simp add: verifyToken_def split: prod.splits)

lemma verifyToken_malformed:
  "(\<forall>t. token = JStr t \<longrightarrow> t = []) \<Longrightarrow> verifyToken ttl store clk token s = (Inr tokenRequired, s)"
  by (cases token) (auto simp: verifyToken_def)

text \<open>
  Claim C3. The cache invariant is preserved by every \<open>verifyToken\<close> call. A call that
  returns a failed result writes nothing to the cache (the cache afterwards is a
  sub-map of the cache before), and for a well-formed token it went to the store,
  leaves no entry under the token, and the next call (any TTL, any store, any clock)
  goes to the store again: a failed result is never served from the cache.
\<close>

theorem C3_only_valid_results_are_cached:
  assumes inv: "cacheInv (tokenCache s)"
    and call: "verifyToken ttl store clk token s = (Inr r, s')"
  shows "cacheInv (tokenCache s') \<and>
         (\<not> isValid r \<longrightarrow> tokenCache s' \<subseteq>\<^sub>m tokenCache s) \<and>
         (\<not> isValid r \<longrightarrow> (\<forall>t. token = JStr t \<and> t \<noteq> [] \<longrightarrow>
            tokenCache s' t = None \<and>
            queryLog s' = queryLog s @ [t] \<and>
            (\<forall>ttl2 store2 clk2.
               queryLog (snd (verifyToken ttl2 store2 clk2 token s')) = queryLog s' @ [t])))"
proof -
  have inv': "cacheInv (tokenCache s')"
    using verifyToken_inv [OF inv, of ttl store clk token] call by simp
  have neg: "tokenCache s' \<subseteq>\<^sub>m tokenCache s \<and> (\<forall>t. token = JStr t \<and> t \<noteq> [] \<longrightarrow>
            tokenCache s' t = None \<and>
            queryLog s' = queryLog s @ [t] \<and>
            (\<forall>ttl2 store2 clk2.
               queryLog (snd (verifyToken ttl2 store2 clk2 token s')) = queryLog s' @ [t]))"
    if nv: "\<not> isValid r"
  proof (cases "\<exists>t. token = JStr t \<and> t \<noteq> []")
    case False
    then have "verifyToken ttl store clk token s = (Inr tokenRequired, s)"
      by (intro verifyToken_malformed) auto
    with call False show ?thesis by auto
  next
    case True
    then obtain t where t: "token = JStr t" "t \<noteq> []" by auto
    obtain out cache' where cc: "checkCache ttl clk t (tokenCache s) = (out, cache')"
      by (cases "checkCache ttl clk t (tokenCache s)")
    have miss: "out = None"
    proof (cases out)
      case (Some r0)
      with cc t call have "r0 = r" by (simp add: verifyToken_hit)
      moreover have "isValid r0" using checkCache_hit_valid [OF inv] cc Some by simp
      ultimately show ?thesis using nv by simp
    qed simp
    let ?s1 = "s\<lparr>tokenCache := cache'\<rparr>"
    have absent: "cache' t = None" and le: "cache' \<subseteq>\<^sub>m tokenCache s"
      using checkCache_miss_absent cc miss by auto
    have res: "queryAndStore store clk t ?s1 = (r, s')"
      using verifyToken_miss [OF t(2), of ttl clk s cache' store] cc miss call t(1)
      by (simp add: prod_eq_iff)
    have same: "tokenCache s' = cache'"
      using queryAndStore_invalid [OF res nv] by simp
    have log: "queryLog s' = queryLog s @ [t]"
      using queryAndStore_log [of store clk t ?s1] res by simp
    have again: "queryLog (snd (verifyToken ttl2 store2 clk2 token s')) = queryLog s' @ [t]"
      for ttl2 store2 clk2
    proof -
      have "checkCache ttl2 clk2 t (tokenCache s') = (None, tokenCache s')"
        using same absent by (simp add: checkCache_def)
      then show ?thesis
        using verifyToken_miss [OF t(2), of ttl2 clk2 s' "tokenCache s'" store2] t(1)
        by (simp add: queryAndStore_log)
    qed
    show ?thesis using t same absent le log again by auto
  qed
  show ?thesis using inv' neg by blast
qed

text \<open>
  Instance of C3: a token that does not exist, on an empty cache; both calls query.
\<close>

theorem C3_only_valid_results_are_cached_witness:
  "cacheInv (tokenCache emptyState) \<and>
   verifyToken 300000 (\<lambda>_. Rows []) (exClock 1000) (JStr ''tok_missing'') emptyState =
     (Inr notFound, emptyState\<lparr>queryLog := [''tok_missing'']\<rparr>) \<and>
   \<not> isValid notFound \<and>
   cacheInv (tokenCache (emptyState\<lparr>queryLog := [''tok_missing'']\<rparr>)) \<and>
   queryLog (snd (verifyToken 300000 (\<lambda>_. Rows []) (exClock 2000) (JStr ''tok_missing'')
                    (emptyState\<lparr>queryLog := [''tok_missing'']\<rparr>)))
     = [''tok_missing'', ''tok_missing'']"
proof -
  have h1: "cacheInv (tokenCache emptyState)"
    by (simp add: cacheInv_def emptyState_def)
  have h2: "verifyToken 300000 (\<lambda>_. Rows []) (exClock 1000) (JStr ''tok_missing'') emptyState =
     (Inr notFound, emptyState\<lparr>queryLog := [''tok_missing'']\<rparr>)"
    by (simp add: verifyToken_def checkCache_def queryAndStore_def queryDatabase_def
          emptyState_def notFound_def)
  have h3: "\<not> isValid notFound" by (simp add: notFound_def)
  show ?thesis
    using h1 h2 h3 C3_only_valid_results_are_cached [OF h1 h2] by simp
qed

lemma queryAndStore_record:
  assumes "store t = Rows (tokenRecord # rest)"
  shows "queryAndStore store clk t s =
     (if is_active tokenRecord = Some False then
        (\<lparr>isValid = False, userId = Some (user_id tokenRecord), error = Some ''Token is inactive'',
          expiresAt = None, isActive = None, createdAt = None\<rparr>,
         s\<lparr>queryLog := queryLog s @ [t]\<rparr>)
      else if (\<exists>e. expires_at tokenRecord = Some e \<and> e < atQuery clk) then
        (\<lparr>isValid = False, userId = Some (user_id tokenRecord), error = Some ''Token has expired'',
          expiresAt = expires_at tokenRecord, isActive = None, createdAt = None\<rparr>,
         s\<lparr>queryLog := queryLog s @ [t]\<rparr>)
      else
        (\<lparr>isValid = True, userId = Some (user_id tokenRecord), error = None,
          expiresAt = expires_at tokenRecord, isActive = is_active tokenRecord,
          createdAt = Some (created_at tokenRecord)\<rparr>,
         s\<lparr>queryLog := queryLog s @ [t],
           tokenCache := (tokenCache s)(t \<mapsto>
             \<lparr>result = \<lparr>isValid = True, userId = Some (user_id tokenRecord), error = None,
                 expiresAt = expires_at tokenRecord, isActive = is_active tokenRecord,
                 createdAt = Some (created_at tokenRecord)\<rparr>,
               cachedAt = atStore clk\<rparr>)\<rparr>))"
  using assms by (auto simp: queryAndStore_def queryDatabase_def Let_def split: option.splits)

text \<open>
  Claim C4. When the lookup falls through and the store returns a record, the decision
  is: \<open>is_active = false\<close> gives the failed result \<open>Token is inactive\<close> whatever
  \<open>expires_at\<close> is; otherwise \<open>expires_at\<close> present and before the current time gives
  \<open>Token has expired\<close>; otherwise the result is valid, carries the record's \<open>user_id\<close>,
  and is stored in the cache with the current timestamp. The failed results are not
  stored. (The source's messages are the spec's "inactive" and "expired".)
\<close>

theorem C4_decision_on_a_found_record:
  assumes wf: "t \<noteq> []"
    and miss: "checkCache ttl clk t (tokenCache s) = (None, cache')"
    and row: "store t = Rows (tokenRecord # rest)"
    and call: "verifyToken ttl store clk (JStr t) s = (out, s')"
  shows "(is_active tokenRecord = Some False \<longrightarrow>
            (\<exists>r. out = Inr r \<and> \<not> isValid r \<and> error r = Some ''Token is inactive'') \<and>
            tokenCache s' t = None)
       \<and> (is_active tokenRecord \<noteq> Some False \<and>
            (\<exists>e. expires_at tokenRecord = Some e \<and> e < atQuery clk) \<longrightarrow>
            (\<exists>r. out = Inr r \<and> \<not> isValid r \<and> error r = Some ''Token has expired'') \<and>
            tokenCache s' t = None)
       \<and> (is_active tokenRecord \<noteq> Some False \<and>
            \<not> (\<exists>e. expires_at tokenRecord = Some e \<and> e < atQuery clk) \<longrightarrow>
            (\<exists>r. out = Inr r \<and> isValid r \<and> userId r = Some (user_id tokenRecord) \<and>
                 error r = None \<and>
                 tokenCache s' t = Some \<lparr>result = r, cachedAt = atStore clk\<rparr>))"
proof -
  have absent: "cache' t = None"
    using checkCache_miss_absent [OF miss] by simp
  have eq: "(out, s') = (Inr (fst (queryAndStore store clk t (s\<lparr>tokenCache := cache'\<rparr>))),
        snd (queryAndStore store clk t (s\<lparr>tokenCache := cache'\<rparr>)))"
    using verifyToken_miss [OF wf miss, of store] call by simp
  show ?thesis
    using eq absent
    by (simp add: queryAndStore_record [where store = store and t = t, OF row])
qed

text \<open>Instance of C4: an active record with no expiry, on an empty cache.\<close>

theorem C4_decision_on_a_found_record_witness:
  "''tok_abc'' \<noteq> [] \<and>
   checkCache 300000 (exClock 1000) ''tok_abc'' (tokenCache emptyState) = (None, Map.empty) \<and>
   (\<lambda>_. Rows [exRecord]) ''tok_abc'' = Rows (exRecord # []) \<and>
   verifyToken 300000 (\<lambda>_. Rows [exRecord]) (exClock 1000) (JStr ''tok_abc'') emptyState =
     (Inr exValid,
      \<lparr>tokenCache = [''tok_abc'' \<mapsto> \<lparr>result = exValid, cachedAt = 1002\<rparr>],
       queryLog = [''tok_abc'']\<rparr>) \<and>
   (\<exists>r. Inr exValid = (Inr r :: string + vresult) \<and> isValid r \<and> userId r = Some ''u1'')"
proof -
  have h1: "''tok_abc'' \<noteq> []" by simp
  have h2: "checkCache 300000 (exClock 1000) ''tok_abc'' (tokenCache emptyState) = (None, Map.empty)"
    by (simp add: checkCache_def emptyState_def)
  have h3: "(\<lambda>_. Rows [exRecord]) ''tok_abc'' = Rows (exRecord # [])" by simp
  have h4: "verifyToken 300000 (\<lambda>_. Rows [exRecord]) (exClock 1000) (JStr ''tok_abc'') emptyState =
     (Inr exValid,
      \<lparr>tokenCache = [''tok_abc'' \<mapsto> \<lparr>result = exValid, cachedAt = 1002\<rparr>],
       queryLog = [''tok_abc'']\<rparr>)"
    by (simp add: verifyToken_def checkCache_def queryAndStore_def queryDatabase_def
          emptyState_def exRecord_def exValid_def exClock_def)
  show ?thesis
    using h1 h2 h3 h4
      C4_decision_on_a_found_record [where store = "\<lambda>_. Rows [exRecord]", OF h1 h2 h3 h4]
    by (simp add: exRecord_def exClock_def)
qed

lemma checkCache_fresh:
  assumes "cache t = Some \<lparr>result = r, cachedAt = c\<rparr>" and "isValid r"
    and "atLookup clk - c < ttl" and "\<forall>e. expiresAt r = Some e \<longrightarrow> \<not> e < atExpiryCheck clk"
  shows "checkCache ttl clk t cache = (Some r, cache)"
  using assms by (auto simp: checkCache_def)

lemma checkCache_stale:
  assumes "cache t = Some \<lparr>result = r, cachedAt = c\<rparr>" and "isValid r"
    and "ttl \<le> atLookup clk - c \<or> (\<exists>e. expiresAt r = Some e \<and> e < atExpiryCheck clk)"
  shows "checkCache ttl clk t cache = (None, cache(t := None))"
  using assms by (auto simp: checkCache_def)

lemma queryAndStore_valid:
  "queryAndStore store clk t s = (r, s') \<Longrightarrow> isValid r \<Longrightarrow>
     tokenCache s' t = Some \<lparr>result = r, cachedAt = atStore clk\<rparr>"
  by (auto simp: queryAndStore_def Let_def verificationFailed_def split: sum.splits if_splits)

lemma verifyToken_valid_is_cached:
  assumes call: "verifyToken ttl store clk token s = (Inr r, s1)" and ok: "isValid r"
  shows "\<exists>t c. token = JStr t \<and> t \<noteq> [] \<and> tokenCache s1 t = Some \<lparr>result = r, cachedAt = c\<rparr> \<and>
               (queryLog s1 \<noteq> queryLog s \<longrightarrow> c = atStore clk)"
proof (cases "\<exists>t. token = JStr t \<and> t \<noteq> []")
  case False
  then have "verifyToken ttl store clk token s = (Inr tokenRequired, s)"
    by (intro verifyToken_malformed) auto
  with call have "r = tokenRequired" by simp
  with ok show ?thesis by (simp add: tokenRequired_def)
next
  case True
  then obtain t where t: "token = JStr t" "t \<noteq> []" by auto
  obtain out cache' where cc: "checkCache ttl clk t (tokenCache s) = (out, cache')"
    by (cases "checkCache ttl clk t (tokenCache s)")
  show ?thesis
  proof (cases out)
    case None
    have res: "queryAndStore store clk t (s\<lparr>tokenCache := cache'\<rparr>) = (r, s1)"
      using verifyToken_miss [OF t(2), of ttl clk s cache' store] cc None call t(1)
      by (simp add: prod_eq_iff)
    show ?thesis using t queryAndStore_valid [OF res ok] by simp
  next
    case (Some r0)
    have eq: "r0 = r" "s1 = s\<lparr>tokenCache := cache'\<rparr>"
      using verifyToken_hit [OF t(2), of ttl clk s r0 cache' store] cc Some call t(1) by simp_all
    obtain e where e: "tokenCache s t = Some e" "result e = r0" "cache' = tokenCache s"
      using checkCache_cases [OF cc] Some by auto
    have shape: "e = \<lparr>result = r, cachedAt = cachedAt e\<rparr>" using e(2) eq(1) by simp
    have "tokenCache s1 t = Some e" using e(1,3) eq(2) by simp
    then have ent: "tokenCache s1 t = Some \<lparr>result = r, cachedAt = cachedAt e\<rparr>"
      using shape by simp
    have "queryLog s1 = queryLog s" using eq(2) by simp
    with t ent show ?thesis by blast
  qed
qed

lemma queryAndStore_valid_row:
  assumes "queryAndStore store clk t s = (r, s')" and "isValid r"
  shows "\<exists>tokenRecord rest. store t = Rows (tokenRecord # rest) \<and>
           expiresAt r = expires_at tokenRecord \<and> userId r = Some (user_id tokenRecord)"
proof (cases "store t")
  case (QueryThrows e)
  with assms show ?thesis
    by (auto simp: queryAndStore_def queryDatabase_def verificationFailed_def)
next
  case (Rows rows)
  show ?thesis
  proof (cases rows)
    case Nil
    with Rows assms show ?thesis by (auto simp: queryAndStore_def queryDatabase_def)
  next
    case (Cons tokenRecord rest)
    with Rows have row: "store t = Rows (tokenRecord # rest)" by simp
    show ?thesis
      using assms row
      by (auto simp: queryAndStore_record [where store = store and t = t, OF row]
            split: if_splits)
  qed
qed

lemma verifyToken_queried_valid:
  assumes call: "verifyToken ttl store clk (JStr t) s = (Inr r, s1)" and ok: "isValid r"
    and queried: "queryLog s1 \<noteq> queryLog s"
  shows "\<exists>tokenRecord rest. store t = Rows (tokenRecord # rest) \<and>
           expiresAt r = expires_at tokenRecord \<and> userId r = Some (user_id tokenRecord)"
proof -
  have wf: "t \<noteq> []"
  proof
    assume "t = []"
    then have "verifyToken ttl store clk (JStr t) s = (Inr tokenRequired, s)"
      by (simp add: verifyToken_def)
    with call queried show False by simp
  qed
  obtain out cache' where cc: "checkCache ttl clk t (tokenCache s) = (out, cache')"
    by (cases "checkCache ttl clk t (tokenCache s)")
  show ?thesis
  proof (cases out)
    case None
    have res: "queryAndStore store clk t (s\<lparr>tokenCache := cache'\<rparr>) = (r, s1)"
      using verifyToken_miss [OF wf, of ttl clk s cache' store] cc None call
      by (simp add: prod_eq_iff)
    show ?thesis by (rule queryAndStore_valid_row [OF res ok])
  next
    case (Some r0)
    have "s1 = s\<lparr>tokenCache := cache'\<rparr>"
      using verifyToken_hit [OF wf, of ttl clk s r0 cache' store] cc Some call by simp
    with queried show ?thesis by simp
  qed
qed

text \<open>
  Claim C5. After a successful verification the cache holds the result. When the call
  went to the store, the entry is stamped with the storing time and the result's
  \<open>expiresAt\<close> is the \<open>expires_at\<close> of the row the store returned, so the cached
  expiry is the record's own. A later call whose cache age is below the TTL and whose
  cached \<open>expiresAt\<close> is absent or not yet passed returns that result and leaves the
  state, query log included, unchanged. A later call whose cache age has reached the
  TTL, or whose cached \<open>expiresAt\<close> has passed, runs the query block on the cache
  with the entry deleted and logs exactly one query.
\<close>

theorem C5_cached_until_ttl_or_expiry:
  assumes first: "verifyToken ttl store clk token s = (Inr r, s1)" and ok: "isValid r"
  shows "\<exists>t c. token = JStr t \<and> tokenCache s1 t = Some \<lparr>result = r, cachedAt = c\<rparr> \<and>
           (queryLog s1 \<noteq> queryLog s \<longrightarrow> c = atStore clk) \<and>
           (queryLog s1 \<noteq> queryLog s \<longrightarrow>
              (\<exists>tokenRecord rest. store t = Rows (tokenRecord # rest) \<and>
                 expiresAt r = expires_at tokenRecord)) \<and>
           (\<forall>store2 clk2.
              (atLookup clk2 - c < ttl \<and> (\<forall>e. expiresAt r = Some e \<longrightarrow> \<not> e < atExpiryCheck clk2) \<longrightarrow>
                 verifyToken ttl store2 clk2 token s1 = (Inr r, s1)) \<and>
              (ttl \<le> atLookup clk2 - c \<or> (\<exists>e. expiresAt r = Some e \<and> e < atExpiryCheck clk2) \<longrightarrow>
                 verifyToken ttl store2 clk2 token s1 =
                   (Inr (fst (queryAndStore store2 clk2 t (s1\<lparr>tokenCache := (tokenCache s1)(t := None)\<rparr>))),
                    snd (queryAndStore store2 clk2 t (s1\<lparr>tokenCache := (tokenCache s1)(t := None)\<rparr>))) \<and>
                 queryLog (snd (verifyToken ttl store2 clk2 token s1)) = queryLog s1 @ [t]))"
proof -
  obtain t c where t: "token = JStr t" "t \<noteq> []"
    and entry: "tokenCache s1 t = Some \<lparr>result = r, cachedAt = c\<rparr>"
    and stamp: "queryLog s1 \<noteq> queryLog s \<longrightarrow> c = atStore clk"
    using verifyToken_valid_is_cached [OF first ok] by blast
  have row: "\<exists>tokenRecord rest. store t = Rows (tokenRecord # rest) \<and>
                 expiresAt r = expires_at tokenRecord"
    if "queryLog s1 \<noteq> queryLog s"
    using verifyToken_queried_valid [OF first [unfolded t(1)] ok that] by blast
  have hit: "verifyToken ttl store2 clk2 token s1 = (Inr r, s1)"
    if "atLookup clk2 - c < ttl" "\<forall>e. expiresAt r = Some e \<longrightarrow> \<not> e < atExpiryCheck clk2"
    for store2 clk2
    using verifyToken_hit [OF t(2) checkCache_fresh [where cache = "tokenCache s1" and t = t, OF entry ok that], of store2] t(1) by simp
  have stale: "verifyToken ttl store2 clk2 token s1 =
                   (Inr (fst (queryAndStore store2 clk2 t (s1\<lparr>tokenCache := (tokenCache s1)(t := None)\<rparr>))),
                    snd (queryAndStore store2 clk2 t (s1\<lparr>tokenCache := (tokenCache s1)(t := None)\<rparr>))) \<and>
                 queryLog (snd (verifyToken ttl store2 clk2 token s1)) = queryLog s1 @ [t]"
    if "ttl \<le> atLookup clk2 - c \<or> (\<exists>e. expiresAt r = Some e \<and> e < atExpiryCheck clk2)"
    for store2 clk2
    using verifyToken_miss [OF t(2) checkCache_stale [where cache = "tokenCache s1" and t = t, OF entry ok that], of store2] t(1)
    by (simp add: queryAndStore_log)
  show ?thesis using t(1) entry stamp row hit stale by blast
qed

text \<open>
  Instance of C5: TTL 300 s and a record that expires at time 5000, cached at 1002.
  A call at 2002 is served from the cache although the store is down. A call at 6000,
  still within the TTL, finds the record's expiry passed: the entry is deleted, the
  store is queried once and answers that the token has expired. A call 300 s after
  caching queries once.
\<close>

theorem C5_cached_until_ttl_or_expiry_witness:
  "verifyToken 300000 (\<lambda>_. Rows [expiringRecord]) (exClock 1000) (JStr ''tok_abc'') emptyState =
     (Inr expiringValid,
      \<lparr>tokenCache = [''tok_abc'' \<mapsto> \<lparr>result = expiringValid, cachedAt = 1002\<rparr>],
       queryLog = [''tok_abc'']\<rparr>) \<and>
   isValid expiringValid \<and>
   expiresAt expiringValid = expires_at expiringRecord \<and>
   verifyToken 300000 (\<lambda>_. QueryThrows ''down'') (exClock 2002) (JStr ''tok_abc'')
      \<lparr>tokenCache = [''tok_abc'' \<mapsto> \<lparr>result = expiringValid, cachedAt = 1002\<rparr>],
       queryLog = [''tok_abc'']\<rparr> =
     (Inr expiringValid,
      \<lparr>tokenCache = [''tok_abc'' \<mapsto> \<lparr>result = expiringValid, cachedAt = 1002\<rparr>],
       queryLog = [''tok_abc'']\<rparr>) \<and>
   verifyToken 300000 (\<lambda>_. Rows [expiringRecord]) (exClock 6000) (JStr ''tok_abc'')
      \<lparr>tokenCache = [''tok_abc'' \<mapsto> \<lparr>result = expiringValid, cachedAt = 1002\<rparr>],
       queryLog = [''tok_abc'']\<rparr> =
     (Inr \<lparr>isValid = False, userId = Some ''u1'', error = Some ''Token has expired'',
            expiresAt = Some 5000, isActive = None, createdAt = None\<rparr>,
      \<lparr>tokenCache = Map.empty, queryLog = [''tok_abc'', ''tok_abc'']\<rparr>) \<and>
   queryLog (snd (verifyToken 300000 (\<lambda>_. Rows [expiringRecord]) (exClock 301002) (JStr ''tok_abc'')
      \<lparr>tokenCache = [''tok_abc'' \<mapsto> \<lparr>result = expiringValid, cachedAt = 1002\<rparr>],
       queryLog = [''tok_abc'']\<rparr>)) = [''tok_abc'', ''tok_abc'']"
proof -
  let ?s1 = "\<lparr>tokenCache = [''tok_abc'' \<mapsto> \<lparr>result = expiringValid, cachedAt = 1002\<rparr>],
       queryLog = [''tok_abc'']\<rparr>"
  let ?live = "\<lambda>_::string. Rows [expiringRecord]"
  have h1: "verifyToken 300000 ?live (exClock 1000) (JStr ''tok_abc'') emptyState =
     (Inr expiringValid, ?s1)"
    by (simp add: verifyToken_def checkCache_def queryAndStore_def queryDatabase_def
          emptyState_def expiringRecord_def expiringValid_def exClock_def)
  have h2: "isValid expiringValid" by (simp add: expiringValid_def)
  obtain t c where tc: "JStr ''tok_abc'' = JStr t"
      "tokenCache ?s1 t = Some \<lparr>result = expiringValid, cachedAt = c\<rparr>"
      "queryLog ?s1 \<noteq> queryLog emptyState \<longrightarrow>
              (\<exists>tokenRecord rest. ?live t = Rows (tokenRecord # rest) \<and>
                 expiresAt expiringValid = expires_at tokenRecord)"
      "\<forall>store2 clk2.
              (atLookup clk2 - c < 300000 \<and> (\<forall>e. expiresAt expiringValid = Some e \<longrightarrow> \<not> e < atExpiryCheck clk2) \<longrightarrow>
                 verifyToken 300000 store2 clk2 (JStr ''tok_abc'') ?s1 = (Inr expiringValid, ?s1)) \<and>
              (300000 \<le> atLookup clk2 - c \<or> (\<exists>e. expiresAt expiringValid = Some e \<and> e < atExpiryCheck clk2) \<longrightarrow>
                 verifyToken 300000 store2 clk2 (JStr ''tok_abc'') ?s1 =
                   (Inr (fst (queryAndStore store2 clk2 t (?s1\<lparr>tokenCache := (tokenCache ?s1)(t := None)\<rparr>))),
                    snd (queryAndStore store2 clk2 t (?s1\<lparr>tokenCache := (tokenCache ?s1)(t := None)\<rparr>))) \<and>
                 queryLog (snd (verifyToken 300000 store2 clk2 (JStr ''tok_abc'') ?s1)) = queryLog ?s1 @ [t])"
    using C5_cached_until_ttl_or_expiry [OF h1 h2] by blast
  have t: "t = ''tok_abc''" using tc(1) by simp
  have c: "c = 1002" using tc(2) t by simp
  have link: "expiresAt expiringValid = expires_at expiringRecord"
    using tc(3) by (simp add: emptyState_def)
  have a0: "atLookup (exClock 2002) - c < 300000 \<and>
      (\<forall>e. expiresAt expiringValid = Some e \<longrightarrow> \<not> e < atExpiryCheck (exClock 2002))"
    using c by (simp add: exClock_def expiringValid_def)
  have a: "verifyToken 300000 (\<lambda>_. QueryThrows ''down'') (exClock 2002) (JStr ''tok_abc'') ?s1
             = (Inr expiringValid, ?s1)"
    using tc(4) a0 by blast
  have e0: "\<exists>e. expiresAt expiringValid = Some e \<and> e < atExpiryCheck (exClock 6000)"
    by (simp add: exClock_def expiringValid_def)
  have "verifyToken 300000 ?live (exClock 6000) (JStr ''tok_abc'') ?s1 =
          (Inr (fst (queryAndStore ?live (exClock 6000) t (?s1\<lparr>tokenCache := (tokenCache ?s1)(t := None)\<rparr>))),
           snd (queryAndStore ?live (exClock 6000) t (?s1\<lparr>tokenCache := (tokenCache ?s1)(t := None)\<rparr>)))"
    using tc(4) e0 by blast
  then have e: "verifyToken 300000 ?live (exClock 6000) (JStr ''tok_abc'') ?s1 =
     (Inr \<lparr>isValid = False, userId = Some ''u1'', error = Some ''Token has expired'',
            expiresAt = Some 5000, isActive = None, createdAt = None\<rparr>,
      \<lparr>tokenCache = Map.empty, queryLog = [''tok_abc'', ''tok_abc'']\<rparr>)"
    using t
    by (simp add: queryAndStore_def queryDatabase_def expiringRecord_def exClock_def)
  have b0: "300000 \<le> atLookup (exClock 301002) - c"
    using c by (simp add: exClock_def)
  have "queryLog (snd (verifyToken 300000 ?live (exClock 301002) (JStr ''tok_abc'') ?s1))
             = queryLog ?s1 @ [t]"
    using tc(4) b0 by blast
  then have b: "queryLog (snd (verifyToken 300000 ?live (exClock 301002) (JStr ''tok_abc'') ?s1))
             = [''tok_abc'', ''tok_abc'']"
    using t by simp
  show ?thesis using h1 h2 link a e b by simp
qed

text \<open>
  Claim C9 fails. The cache holds, within the TTL, a failed result for a token; the
  store would return a valid record for it. \<open>verifyToken\<close> returns the cached failed
  result and makes no query: the hit is not treated as a miss.
\<close>

theorem C9_counterexample:
  "tokenCache \<lparr>tokenCache = [''tok_abc'' \<mapsto> negEntry], queryLog = []\<rparr> ''tok_abc'' = Some negEntry \<and>
   \<not> isValid (result negEntry) \<and>
   atLookup (exClock 2000) - cachedAt negEntry < 300000 \<and>
   verifyToken 300000 (\<lambda>_. Rows [exRecord]) (exClock 2000) (JStr ''tok_abc'')
       \<lparr>tokenCache = [''tok_abc'' \<mapsto> negEntry], queryLog = []\<rparr>
     = (Inr notFound, \<lparr>tokenCache = [''tok_abc'' \<mapsto> negEntry], queryLog = []\<rparr>)"
  by (simp add: verifyToken_def checkCache_def negEntry_def notFound_def exClock_def)

text \<open>
  Claim C9 as amended. A cache hit within the TTL whose cached result has
  \<open>isValid = false\<close> is returned as it is, with no store query and no change of
  state (the branch the source comments "don't re-query invalid tokens").
\<close>

theorem C9_cached_negative_result_is_returned:
  assumes "t \<noteq> []" and "tokenCache s t = Some cached"
    and "atLookup clk - cachedAt cached < ttl" and "\<not> isValid (result cached)"
  shows "verifyToken ttl store clk (JStr t) s = (Inr (result cached), s)"
  using assms by (simp add: verifyToken_def checkCache_def)

text \<open>
  Instance of the amended C9: the store is down, and the cached failed result is
  still returned.
\<close>

theorem C9_cached_negative_result_is_returned_witness:
  "''tok_abc'' \<noteq> [] \<and>
   tokenCache \<lparr>tokenCache = [''tok_abc'' \<mapsto> negEntry], queryLog = []\<rparr> ''tok_abc'' = Some negEntry \<and>
   atLookup (exClock 2000) - cachedAt negEntry < 300000 \<and>
   \<not> isValid (result negEntry) \<and>
   verifyToken 300000 (\<lambda>_. QueryThrows ''down'') (exClock 2000) (JStr ''tok_abc'')
       \<lparr>tokenCache = [''tok_abc'' \<mapsto> negEntry], queryLog = []\<rparr>
     = (Inr (result negEntry), \<lparr>tokenCache = [''tok_abc'' \<mapsto> negEntry], queryLog = []\<rparr>)"
proof -
  let ?s = "\<lparr>tokenCache = [''tok_abc'' \<mapsto> negEntry], queryLog = []\<rparr>"
  have h1: "''tok_abc'' \<noteq> []" by simp
  have h2: "tokenCache ?s ''tok_abc'' = Some negEntry" by simp
  have h3: "atLookup (exClock 2000) - cachedAt negEntry < 300000"
    by (simp add: exClock_def negEntry_def)
  have h4: "\<not> isValid (result negEntry)" by (simp add: negEntry_def notFound_def)
  show ?thesis
    using h1 h2 h3 h4 C9_cached_negative_result_is_returned [OF h1 h2 h3 h4] by simp
qed

text \<open>
  Claim C10. A token that is absent, not a string or empty gives a failed result with
  \<open>userId = null\<close>. After a fall-through to the store, no row and a thrown query
  both give a failed result with \<open>userId = null\<close>, while a found record that is
  rejected (as inactive or as expired) gives a result whose \<open>userId\<close> is the
  record's \<open>user_id\<close>.
\<close>

theorem C10_userId_of_rejected_records:
  "((\<forall>t. token = JStr t \<longrightarrow> t = []) \<longrightarrow>
      (\<exists>r. fst (verifyToken ttl store clk token s) = Inr r \<and> \<not> isValid r \<and> userId r = None))
   \<and> (t \<noteq> [] \<and> fst (checkCache ttl clk t (tokenCache s)) = None \<longrightarrow>
        (\<exists>r. fst (verifyToken ttl store clk (JStr t) s) = Inr r \<and>
           (store t = Rows [] \<longrightarrow> \<not> isValid r \<and> userId r = None) \<and>
           ((\<exists>e. store t = QueryThrows e) \<longrightarrow> \<not> isValid r \<and> userId r = None) \<and>
           (\<forall>tokenRecord rest. store t = Rows (tokenRecord # rest) \<and> \<not> isValid r \<longrightarrow>
              userId r = Some (user_id tokenRecord) \<and>
              (error r = Some ''Token is inactive'' \<or> error r = Some ''Token has expired''))))"
proof -
  have a: "\<exists>r. fst (verifyToken ttl store clk token s) = Inr r \<and> \<not> isValid r \<and> userId r = None"
    if "\<forall>t. token = JStr t \<longrightarrow> t = []"
    using verifyToken_malformed [OF that] by (simp add: tokenRequired_def)
  have b: "\<exists>r. fst (verifyToken ttl store clk (JStr t) s) = Inr r \<and>
           (store t = Rows [] \<longrightarrow> \<not> isValid r \<and> userId r = None) \<and>
           ((\<exists>e. store t = QueryThrows e) \<longrightarrow> \<not> isValid r \<and> userId r = None) \<and>
           (\<forall>tokenRecord rest. store t = Rows (tokenRecord # rest) \<and> \<not> isValid r \<longrightarrow>
              userId r = Some (user_id tokenRecord) \<and>
              (error r = Some ''Token is inactive'' \<or> error r = Some ''Token has expired''))"
    if wf: "t \<noteq> []" and miss: "fst (checkCache ttl clk t (tokenCache s)) = None"
  proof -
    obtain cache' where cc: "checkCache ttl clk t (tokenCache s) = (None, cache')"
      using miss by (cases "checkCache ttl clk t (tokenCache s)") simp
    let ?q = "queryAndStore store clk t (s\<lparr>tokenCache := cache'\<rparr>)"
    have res: "fst (verifyToken ttl store clk (JStr t) s) = Inr (fst ?q)"
      by (simp add: verifyToken_miss [OF wf cc])
    have none: "\<not> isValid (fst ?q) \<and> userId (fst ?q) = None" if "store t = Rows []"
      using that by (simp add: queryAndStore_def queryDatabase_def)
    have thrown: "\<not> isValid (fst ?q) \<and> userId (fst ?q) = None" if "store t = QueryThrows e" for e
      using that by (simp add: queryAndStore_def queryDatabase_def verificationFailed_def)
    have found: "userId (fst ?q) = Some (user_id tokenRecord) \<and>
        (error (fst ?q) = Some ''Token is inactive'' \<or> error (fst ?q) = Some ''Token has expired'')"
      if "store t = Rows (tokenRecord # rest)" "\<not> isValid (fst ?q)" for tokenRecord rest
      using that(2)
      by (simp add: queryAndStore_record [where store = store and t = t, OF that(1)]
            split: if_splits)
    show ?thesis using res none thrown found by blast
  qed
  show ?thesis using a b by blast
qed

text \<open>
  Instance of C10: an absent token, and an inactive record owned by \<open>u7\<close>.
\<close>

theorem C10_userId_of_rejected_records_witness:
  "''tok_old'' \<noteq> [] \<and> fst (checkCache 300000 (exClock 1000) ''tok_old'' (tokenCache emptyState)) = None \<and>
   (\<lambda>_. Rows [inactiveRecord]) ''tok_old'' = Rows (inactiveRecord # []) \<and>
   (\<exists>r. fst (verifyToken 300000 (\<lambda>_. Rows [inactiveRecord]) (exClock 1000) JNull emptyState) = Inr r \<and>
        userId r = None) \<and>
   (\<exists>r. fst (verifyToken 300000 (\<lambda>_. Rows [inactiveRecord]) (exClock 1000) (JStr ''tok_old'') emptyState) = Inr r \<and>
        \<not> isValid r \<and> userId r = Some ''u7'')"
proof -
  have h1: "\<forall>t. JNull = JStr t \<longrightarrow> t = []" by simp
  have h2: "''tok_old'' \<noteq> [] \<and>
      fst (checkCache 300000 (exClock 1000) ''tok_old'' (tokenCache emptyState)) = None"
    by (simp add: checkCache_def emptyState_def)
  have h3: "(\<lambda>_. Rows [inactiveRecord]) ''tok_old'' = Rows (inactiveRecord # [])" by simp
  have h4: "\<not> isValid (projr (fst (verifyToken 300000 (\<lambda>_. Rows [inactiveRecord]) (exClock 1000)
      (JStr ''tok_old'') emptyState)))"
    by (simp add: verifyToken_def checkCache_def queryAndStore_def queryDatabase_def
          emptyState_def inactiveRecord_def)
  have u: "user_id inactiveRecord = ''u7''" by (simp add: inactiveRecord_def)
  show ?thesis
    using h1 h2 h3 h4 u
      C10_userId_of_rejected_records [of JNull 300000 "\<lambda>_. Rows [inactiveRecord]" "exClock 1000"
        emptyState "''tok_old''"]
    by auto
qed

text \<open>
  Claim C1, evaluated where the store query throws. \<open>verifyToken\<close> returns the
  failed result \<open>Token verification failed\<close> and stores nothing, as the claim says;
  but it returns it as a value, so the handler answers 401, the status of an invalid
  credential, and not 503.
\<close>

theorem C1_store_error_is_answered_401:
  "verifyToken 300000 (\<lambda>_. QueryThrows ''connect ECONNREFUSED'') (exClock 1000)
       (JStr ''tok_abc'') emptyState
     = (Inr verificationFailed, emptyState\<lparr>queryLog := [''tok_abc'']\<rparr>) \<and>
   handler 300000 (\<lambda>_. QueryThrows ''connect ECONNREFUSED'') (exClock 1000)
       (JStr ''tok_abc'') emptyState
     = (Some \<lparr>statusCode = 401, body = [(''error'', ''Token verification failed'')]\<rparr>,
        emptyState\<lparr>queryLog := [''tok_abc'']\<rparr>)"
  by (simp add: handler_def verifyToken_def checkCache_def queryAndStore_def queryDatabase_def
        emptyState_def verificationFailed_def)

text \<open>
  The gate never answers 503: \<open>verifyToken\<close> has no throwing path, so the
  handler's \<open>catch\<close> branch cannot run.
\<close>

lemma handler_status:
  "map_option statusCode (fst (handler ttl store clk token s)) \<in> {None, Some 401}"
proof -
  obtain r where "fst (verifyToken ttl store clk token s) = Inr r"
    using verifyToken_never_throws by blast
  then show ?thesis
    by (cases "verifyToken ttl store clk token s") (simp add: handler_def)
qed




section \<open>Properties of the secret resolution\<close>

text \<open>
  Claim C8 fails. A payload holding \<open>host\<close>, \<open>port\<close>, \<open>database\<close>, \<open>user\<close> and
  \<open>password\<close> is rejected, because the code requires the property \<open>username\<close>; and a
  payload holding all five required properties is rejected when one of them is falsy
  (here \<open>port: 0\<close>).
\<close>

theorem C8_counterexample:
  "userPayload ''host'' \<noteq> JUndefined \<and> userPayload ''port'' \<noteq> JUndefined \<and>
   userPayload ''database'' \<noteq> JUndefined \<and> userPayload ''user'' \<noteq> JUndefined \<and>
   userPayload ''password'' \<noteq> JUndefined \<and>
   getDatabaseCredentials ''prod/db'' (Secret userPayload) None =
     (Inl ''Failed to retrieve database credentials: Secret is missing required fields: username'',
      None) \<and>
   zeroPortPayload ''host'' \<noteq> JUndefined \<and> zeroPortPayload ''port'' \<noteq> JUndefined \<and>
   zeroPortPayload ''database'' \<noteq> JUndefined \<and> zeroPortPayload ''username'' \<noteq> JUndefined \<and>
   zeroPortPayload ''password'' \<noteq> JUndefined \<and>
   getDatabaseCredentials ''prod/db'' (Secret zeroPortPayload) None =
     (Inl ''Failed to retrieve database credentials: Secret is missing required fields: port'',
      None)"
  by (simp add: getDatabaseCredentials_def requiredFields_def userPayload_def zeroPortPayload_def)

text \<open>
  Claim C8 as amended. On a first resolution (nothing memoized, secret name set) of a
  parsed payload other than \<open>null\<close>, \<open>getDatabaseCredentials\<close> fails if and only if
  at least one of \<open>host\<close>, \<open>port\<close>, \<open>database\<close>, \<open>username\<close>, \<open>password\<close> is
  absent or falsy. When all five are truthy it returns and memoizes the connection
  parameters, with \<open>user\<close> taken from \<open>username\<close>; otherwise it throws an error
  whose message lists the offending properties and memoizes nothing. The payload
  \<open>null\<close> fails too, with the message of the property read that threw.
\<close>

theorem C8_required_fields:
  assumes "secretName \<noteq> []"
  shows "(isl (fst (getDatabaseCredentials secretName (Secret secret) None)) \<longleftrightarrow>
           (\<exists>field \<in> set [''host'', ''port'', ''database'', ''username'', ''password''].
              \<not> truthy (secret field)))
       \<and> ((\<forall>field \<in> set [''host'', ''port'', ''database'', ''username'', ''password''].
              truthy (secret field)) \<longrightarrow>
            getDatabaseCredentials secretName (Secret secret) None =
              (Inr \<lparr>host = secret ''host'', port = secret ''port'', database = secret ''database'',
                    user = secret ''username'', password = secret ''password''\<rparr>,
               Some \<lparr>host = secret ''host'', port = secret ''port'', database = secret ''database'',
                    user = secret ''username'', password = secret ''password''\<rparr>))
       \<and> ((\<exists>field \<in> set [''host'', ''port'', ''database'', ''username'', ''password''].
              \<not> truthy (secret field)) \<longrightarrow>
            getDatabaseCredentials secretName (Secret secret) None =
              (Inl (''Failed to retrieve database credentials: Secret is missing required fields: '' @
                    join (filter (\<lambda>field. \<not> truthy (secret field))
                       [''host'', ''port'', ''database'', ''username'', ''password''])),
               None))
       \<and> getDatabaseCredentials secretName SecretNull None =
            (Inl (''Failed to retrieve database credentials: Cannot read properties of null (reading '' @
                  [CHR 0x27] @ ''host'' @ [CHR 0x27] @ '')''),
             None)"
proof -
  let ?missing = "filter (\<lambda>field. \<not> truthy (secret field)) requiredFields"
  have rf: "[''host'', ''port'', ''database'', ''username'', ''password''] = requiredFields"
    by (simp add: requiredFields_def)
  have m: "(0 < length ?missing) \<longleftrightarrow> (\<exists>field \<in> set requiredFields. \<not> truthy (secret field))"
    by (simp add: filter_empty_conv)
  have null: "getDatabaseCredentials secretName SecretNull None =
            (Inl (''Failed to retrieve database credentials: Cannot read properties of null (reading '' @
                  [CHR 0x27] @ ''host'' @ [CHR 0x27] @ '')''),
             None)"
    using assms by (simp add: getDatabaseCredentials_def)
  show ?thesis
  proof (cases "\<exists>field \<in> set requiredFields. \<not> truthy (secret field)")
    case True
    then have "0 < length ?missing" using m by simp
    then have "getDatabaseCredentials secretName (Secret secret) None =
        (Inl (''Failed to retrieve database credentials: Secret is missing required fields: '' @
              join ?missing), None)"
      using assms by (simp add: getDatabaseCredentials_def Let_def)
    then show ?thesis using True null unfolding rf by simp
  next
    case False
    then have len: "\<not> 0 < length ?missing" using m by simp
    have "truthy (secret ''port'')" using False by (simp add: requiredFields_def)
    then have "getDatabaseCredentials secretName (Secret secret) None =
        (Inr \<lparr>host = secret ''host'', port = secret ''port'', database = secret ''database'',
              user = secret ''username'', password = secret ''password''\<rparr>,
         Some \<lparr>host = secret ''host'', port = secret ''port'', database = secret ''database'',
              user = secret ''username'', password = secret ''password''\<rparr>)"
      using assms len by (simp add: getDatabaseCredentials_def Let_def)
    then show ?thesis using False null unfolding rf by simp
  qed
qed

text \<open>
  Instances of the amended C8: a complete payload, and one with \<open>port: 0\<close>.
\<close>

theorem C8_required_fields_witness:
  "''prod/db'' \<noteq> [] \<and>
   truthy (goodPayload ''host'') \<and> truthy (goodPayload ''port'') \<and>
   truthy (goodPayload ''database'') \<and> truthy (goodPayload ''username'') \<and>
   truthy (goodPayload ''password'') \<and>
   getDatabaseCredentials ''prod/db'' (Secret goodPayload) None =
     (Inr \<lparr>host = JStr ''db.internal'', port = JNum 6432, database = JStr ''app'',
           user = JStr ''svc'', password = JStr ''pw''\<rparr>,
      Some \<lparr>host = JStr ''db.internal'', port = JNum 6432, database = JStr ''app'',
           user = JStr ''svc'', password = JStr ''pw''\<rparr>) \<and>
   (\<exists>field \<in> set [''host'', ''port'', ''database'', ''username'', ''password''].
      \<not> truthy (zeroPortPayload field)) \<and>
   getDatabaseCredentials ''prod/db'' (Secret zeroPortPayload) None =
     (Inl ''Failed to retrieve database credentials: Secret is missing required fields: port'',
      None)"
proof -
  have h: "''prod/db'' \<noteq> []" by simp
  have g: "\<forall>field \<in> set [''host'', ''port'', ''database'', ''username'', ''password''].
      truthy (goodPayload field)"
    by (simp add: goodPayload_def)
  have z: "\<exists>field \<in> set [''host'', ''port'', ''database'', ''username'', ''password''].
      \<not> truthy (zeroPortPayload field)"
    by (simp add: zeroPortPayload_def)
  have a: "getDatabaseCredentials ''prod/db'' (Secret goodPayload) None =
     (Inr \<lparr>host = JStr ''db.internal'', port = JNum 6432, database = JStr ''app'',
           user = JStr ''svc'', password = JStr ''pw''\<rparr>,
      Some \<lparr>host = JStr ''db.internal'', port = JNum 6432, database = JStr ''app'',
           user = JStr ''svc'', password = JStr ''pw''\<rparr>)"
    using C8_required_fields [OF h, of goodPayload] g by (simp add: goodPayload_def)
  have b: "getDatabaseCredentials ''prod/db'' (Secret zeroPortPayload) None =
     (Inl ''Failed to retrieve database credentials: Secret is missing required fields: port'',
      None)"
    using C8_required_fields [OF h, of zeroPortPayload] z by (simp add: zeroPortPayload_def)
  have g': "truthy (goodPayload ''host'') \<and> truthy (goodPayload ''port'') \<and>
   truthy (goodPayload ''database'') \<and> truthy (goodPayload ''username'') \<and>
   truthy (goodPayload ''password'')"
    using g by simp
  show ?thesis using h g' z a b by blast
qed

section \<open>Properties of the pool initialization\<close>

lemma run_append:
  "run env (xs @ ys) s =
     (fst (run env xs s) @ fst (run env ys (snd (run env xs s))),
      snd (run env ys (snd (run env xs s))))"
  by (induction xs arbitrary: s) (auto split: prod.splits)

lemma getPool_call_joins:
  assumes "pool s = None" "isInitializing s" "initPromise s = Some pr"
  shows "getPool_call env s = (ReturnsPromise (pid pr), s)"
  using assms by (simp add: getPool_call_def)

lemma run_joiners:
  assumes "pool s = None" "isInitializing s" "initPromise s = Some pr"
  shows "run env (replicate n GetPool) s = (replicate n (Called (ReturnsPromise (pid pr))), s)"
  by (induction n) (simp_all add: step_def getPool_call_joins [OF assms])

lemma getPool_call_starts:
  assumes "pool s = None" "\<not> isInitializing s"
  shows "getPool_call env s =
     (StartsInit (attempts s),
      s\<lparr>isInitializing := True,
        attempts := Suc (attempts s),
        secretResolutions := (if dbSecretName env = [] then secretResolutions s
                              else Suc (secretResolutions s)),
        initPromise := Some \<lparr>pid = attempts s,
          pstate = (if dbSecretName env = []
                    then Rejected ''DB_SECRET_NAME environment variable is not set''
                    else Pending)\<rparr>\<rparr>)"
  using assms by (simp add: getPool_call_def initializePool_start_def Let_def)

lemma step_InitFinishes_inflight:
  assumes "pool s = None" "isInitializing s" "initPromise s = Some pr"
  shows "\<exists>pr'. pool (snd (step env InitFinishes s)) = None \<and>
           isInitializing (snd (step env InitFinishes s)) \<and>
           initPromise (snd (step env InitFinishes s)) = Some pr' \<and>
           attempts (snd (step env InitFinishes s)) = attempts s \<and>
           secretResolutions (snd (step env InitFinishes s)) = secretResolutions s \<and>
           poolConstructions (snd (step env InitFinishes s)) \<le> Suc (poolConstructions s)"
  using assms
  by (cases "outcome env (pid pr)") (auto simp: step_def initializePool_finish_def)

lemma step_OwnerResumes_counters:
  "attempts (snd (step env OwnerResumes s)) = attempts s \<and>
   secretResolutions (snd (step env OwnerResumes s)) = secretResolutions s \<and>
   poolConstructions (snd (step env OwnerResumes s)) = poolConstructions s"
  by (auto simp: step_def getPool_resume_def split: option.splits promise_state.splits)

lemma run_single: "run env [ev] s = ([fst (step env ev s)], snd (step env ev s))"
  by (simp split: prod.splits)

lemma run_Cons_snd: "snd (run env (ev # evs) s) = snd (run env evs (snd (step env ev s)))"
  by (simp split: prod.splits)

text \<open>
  Claim C6. On a pool that is unset with no initialization in flight, \<open>n + 1\<close> calls
  of \<open>getPool\<close> before the attempt settles, and \<open>m\<close> more between its settlement
  and the resumption of the starting call, invoke \<open>initializePool\<close> exactly once:
  the first call starts the attempt and every other call returns that attempt's
  promise. Whatever the environment does, the whole run makes at most one credentials
  call and at most one pool construction. When the secret name is set and the attempt
  connects, it makes exactly one of each, the shared promise is fulfilled with the
  pool, and the pool becomes the singleton.
\<close>

theorem C6_single_flight_initialization:
  assumes cold: "pool s = None" "\<not> isInitializing s"
  shows "fst (run env (replicate (Suc n) GetPool) s) =
           Called (StartsInit (attempts s)) # replicate n (Called (ReturnsPromise (attempts s)))
       \<and> attempts (snd (run env (replicate (Suc n) GetPool) s)) = Suc (attempts s)
       \<and> attempts (snd (run env (replicate (Suc n) GetPool @ InitFinishes # replicate m GetPool @ [OwnerResumes]) s))
             = Suc (attempts s)
       \<and> secretResolutions (snd (run env (replicate (Suc n) GetPool @ InitFinishes # replicate m GetPool @ [OwnerResumes]) s))
             \<le> Suc (secretResolutions s)
       \<and> poolConstructions (snd (run env (replicate (Suc n) GetPool @ InitFinishes # replicate m GetPool @ [OwnerResumes]) s))
             \<le> Suc (poolConstructions s)
       \<and> (dbSecretName env \<noteq> [] \<and> outcome env (attempts s) = Connected \<longrightarrow>
            run env (replicate (Suc n) GetPool @ InitFinishes # replicate m GetPool @ [OwnerResumes]) s =
              (Called (StartsInit (attempts s)) # replicate n (Called (ReturnsPromise (attempts s))) @
                 Settled (attempts s) (Fulfilled (attempts s)) #
                 replicate m (Called (ReturnsPromise (attempts s))) @ [OwnerGot (Inr (attempts s))],
               s\<lparr>pool := Some (attempts s), isInitializing := False, initPromise := None,
                 attempts := Suc (attempts s),
                 secretResolutions := Suc (secretResolutions s),
                 poolConstructions := Suc (poolConstructions s)\<rparr>))"
proof -
  let ?p = "attempts s"
  let ?pr = "\<lparr>pid = ?p, pstate = (if dbSecretName env = []
                    then Rejected ''DB_SECRET_NAME environment variable is not set''
                    else Pending)\<rparr>"
  let ?s1 = "s\<lparr>isInitializing := True, attempts := Suc ?p,
        secretResolutions := (if dbSecretName env = [] then secretResolutions s
                              else Suc (secretResolutions s)),
        initPromise := Some ?pr\<rparr>"
  have first: "step env GetPool s = (Called (StartsInit ?p), ?s1)"
    by (simp add: step_def getPool_call_starts [OF cold])
  have fl: "pool ?s1 = None" "isInitializing ?s1" "initPromise ?s1 = Some ?pr"
    using cold by simp_all
  have joiners: "run env (replicate k GetPool) ?s1 = (replicate k (Called (ReturnsPromise ?p)), ?s1)" for k
    using run_joiners [OF fl, of env k] by simp
  have calls: "run env (replicate (Suc n) GetPool) s =
      (Called (StartsInit ?p) # replicate n (Called (ReturnsPromise ?p)), ?s1)"
    by (simp add: first joiners)
  have full: "run env (replicate (Suc n) GetPool @ InitFinishes # replicate m GetPool @ [OwnerResumes]) s =
              (Called (StartsInit ?p) # replicate n (Called (ReturnsPromise ?p)) @
                 Settled ?p (Fulfilled ?p) #
                 replicate m (Called (ReturnsPromise ?p)) @ [OwnerGot (Inr ?p)],
               s\<lparr>pool := Some ?p, isInitializing := False, initPromise := None,
                 attempts := Suc ?p,
                 secretResolutions := Suc (secretResolutions s),
                 poolConstructions := Suc (poolConstructions s)\<rparr>)"
    if env: "dbSecretName env \<noteq> []" "outcome env ?p = Connected"
  proof -
    let ?s1' = "s\<lparr>isInitializing := True, attempts := Suc ?p,
        secretResolutions := Suc (secretResolutions s),
        initPromise := Some \<lparr>pid = ?p, pstate = Pending\<rparr>\<rparr>"
    let ?pr2 = "\<lparr>pid = ?p, pstate = Fulfilled ?p\<rparr>"
    let ?s2 = "s\<lparr>isInitializing := True, attempts := Suc ?p,
        secretResolutions := Suc (secretResolutions s),
        poolConstructions := Suc (poolConstructions s),
        initPromise := Some ?pr2\<rparr>"
    let ?s3 = "s\<lparr>pool := Some ?p, isInitializing := False, initPromise := None,
                 attempts := Suc ?p,
                 secretResolutions := Suc (secretResolutions s),
                 poolConstructions := Suc (poolConstructions s)\<rparr>"
    have s1: "?s1 = ?s1'" using env(1) by simp
    have settle: "step env InitFinishes ?s1' = (Settled ?p (Fulfilled ?p), ?s2)"
      using env(2) by (simp add: step_def initializePool_finish_def)
    have fl2: "pool ?s2 = None" "isInitializing ?s2" "initPromise ?s2 = Some ?pr2"
      using cold by simp_all
    have joiners2: "run env (replicate m GetPool) ?s2 = (replicate m (Called (ReturnsPromise ?p)), ?s2)"
      using run_joiners [OF fl2, of env m] by simp
    have resume: "step env OwnerResumes ?s2 = (OwnerGot (Inr ?p), ?s3)"
      by (simp add: step_def getPool_resume_def)
    have rest: "run env (replicate m GetPool @ [OwnerResumes]) ?s2 =
        (replicate m (Called (ReturnsPromise ?p)) @ [OwnerGot (Inr ?p)], ?s3)"
      unfolding run_append joiners2 by (simp add: resume)
    have tail: "run env (InitFinishes # replicate m GetPool @ [OwnerResumes]) ?s1' =
        (Settled ?p (Fulfilled ?p) # replicate m (Called (ReturnsPromise ?p)) @ [OwnerGot (Inr ?p)], ?s3)"
      by (simp add: settle rest)
    show ?thesis
      unfolding run_append [of env "replicate (Suc n) GetPool"] calls fst_conv snd_conv s1 tail
      by simp
  qed
  have bounds:
    "attempts (snd (run env (replicate (Suc n) GetPool @ InitFinishes # replicate m GetPool @ [OwnerResumes]) s))
       = Suc ?p"
    "secretResolutions (snd (run env (replicate (Suc n) GetPool @ InitFinishes # replicate m GetPool @ [OwnerResumes]) s))
       \<le> Suc (secretResolutions s)"
    "poolConstructions (snd (run env (replicate (Suc n) GetPool @ InitFinishes # replicate m GetPool @ [OwnerResumes]) s))
       \<le> Suc (poolConstructions s)"
  proof -
    let ?s2 = "snd (step env InitFinishes ?s1)"
    obtain pr' where s2: "pool ?s2 = None" "isInitializing ?s2" "initPromise ?s2 = Some pr'"
        "attempts ?s2 = attempts ?s1" "secretResolutions ?s2 = secretResolutions ?s1"
        "poolConstructions ?s2 \<le> Suc (poolConstructions ?s1)"
      using step_InitFinishes_inflight [OF fl, of env] by blast
    have end_state:
      "snd (run env (replicate (Suc n) GetPool @ InitFinishes # replicate m GetPool @ [OwnerResumes]) s)
         = snd (step env OwnerResumes ?s2)"
      unfolding run_append [of env "replicate (Suc n) GetPool"] calls fst_conv snd_conv
        run_Cons_snd [of env InitFinishes] run_append [of env "replicate m GetPool"]
        run_joiners [OF s2(1-3)] run_single
      by simp
    show "attempts (snd (run env (replicate (Suc n) GetPool @ InitFinishes # replicate m GetPool @ [OwnerResumes]) s))
       = Suc ?p"
      unfolding end_state using step_OwnerResumes_counters [of env ?s2] s2(4) by simp
    show "secretResolutions (snd (run env (replicate (Suc n) GetPool @ InitFinishes # replicate m GetPool @ [OwnerResumes]) s))
       \<le> Suc (secretResolutions s)"
      unfolding end_state using step_OwnerResumes_counters [of env ?s2] s2(5) by simp
    show "poolConstructions (snd (run env (replicate (Suc n) GetPool @ InitFinishes # replicate m GetPool @ [OwnerResumes]) s))
       \<le> Suc (poolConstructions s)"
      unfolding end_state using step_OwnerResumes_counters [of env ?s2] s2(6) by simp
  qed
  show ?thesis using calls full bounds by simp
qed

text \<open>
  Instance of C6: four callers in a healthy environment, three before the attempt
  settles and one after.
\<close>

theorem C6_single_flight_initialization_witness:
  "pool initial = None \<and> \<not> isInitializing initial \<and>
   dbSecretName healthy \<noteq> [] \<and> outcome healthy (attempts initial) = Connected \<and>
   run healthy (replicate (Suc 2) GetPool @ InitFinishes # replicate 1 GetPool @ [OwnerResumes]) initial =
     (Called (StartsInit 0) # replicate 2 (Called (ReturnsPromise 0)) @
        Settled 0 (Fulfilled 0) # replicate 1 (Called (ReturnsPromise 0)) @ [OwnerGot (Inr 0)],
      \<lparr>pool = Some 0, isInitializing = False, initPromise = None,
       attempts = 1, secretResolutions = 1, poolConstructions = 1\<rparr>)"
proof -
  have h1: "pool initial = None" and h2: "\<not> isInitializing initial"
    by (simp_all add: initial_def)
  have h3: "dbSecretName healthy \<noteq> [] \<and> outcome healthy (attempts initial) = Connected"
    by (simp add: healthy_def)
  show ?thesis
    using h1 h2 h3 C6_single_flight_initialization [OF h1 h2, of healthy 2 1]
    by (simp add: initial_def)
qed

text \<open>
  Claim C7. When the attempt fails (secret name unset, credentials call rejected, or
  test connection rejected), the starting call gets that very error, \<open>pool\<close> stays
  unset and the guard (\<open>isInitializing\<close>, \<open>initPromise\<close>) is cleared. The next
  \<open>getPool\<close> call invokes \<open>initializePool\<close> again as a new attempt: with the
  secret name set its promise is pending, not a remembered failure, and the credentials
  are requested a second time; when this attempt connects, a new pool is constructed and
  becomes the singleton.
\<close>

theorem C7_failed_initialization_is_retried:
  assumes cold: "pool s = None" "\<not> isInitializing s"
    and fails: "dbSecretName env = [] \<or> outcome env (attempts s) \<noteq> Connected"
  shows "\<exists>ob e s'.
           run env [GetPool, InitFinishes, OwnerResumes] s =
             ([Called (StartsInit (attempts s)), ob, OwnerGot (Inl e)], s') \<and>
           (dbSecretName env = [] \<longrightarrow>
              ob = Disabled \<and> e = ''DB_SECRET_NAME environment variable is not set'') \<and>
           (dbSecretName env \<noteq> [] \<longrightarrow>
              ob = Settled (attempts s) (Rejected e) \<and>
              (outcome env (attempts s) = CredentialsFail e \<or>
               outcome env (attempts s) = ConnectFail e) \<and>
              secretResolutions s' = Suc (secretResolutions s)) \<and>
           pool s' = None \<and> \<not> isInitializing s' \<and> initPromise s' = None \<and>
           attempts s' = Suc (attempts s) \<and>
           getPool_call env s' =
             (StartsInit (Suc (attempts s)),
              snd (initializePool_start env (s'\<lparr>isInitializing := True\<rparr>))
                \<lparr>initPromise := Some (fst (initializePool_start env (s'\<lparr>isInitializing := True\<rparr>)))\<rparr>) \<and>
           attempts (snd (getPool_call env s')) = Suc (Suc (attempts s)) \<and>
           (dbSecretName env \<noteq> [] \<longrightarrow>
              initPromise (snd (getPool_call env s')) =
                Some \<lparr>pid = Suc (attempts s), pstate = Pending\<rparr> \<and>
              secretResolutions (snd (getPool_call env s')) = Suc (Suc (secretResolutions s))) \<and>
           (dbSecretName env \<noteq> [] \<and> outcome env (Suc (attempts s)) = Connected \<longrightarrow>
              run env [GetPool, InitFinishes, OwnerResumes] s' =
                ([Called (StartsInit (Suc (attempts s))),
                  Settled (Suc (attempts s)) (Fulfilled (Suc (attempts s))),
                  OwnerGot (Inr (Suc (attempts s)))],
                 s'\<lparr>pool := Some (Suc (attempts s)), attempts := Suc (Suc (attempts s)),
                    secretResolutions := Suc (Suc (secretResolutions s)),
                    poolConstructions := Suc (poolConstructions s')\<rparr>))"
proof (cases "dbSecretName env = []")
  case True
  show ?thesis
    using True cold
    by (simp add: step_def getPool_call_def initializePool_start_def getPool_resume_def Let_def)
next
  case False
  with fails have nc: "outcome env (attempts s) \<noteq> Connected" by simp
  show ?thesis
  proof (cases "outcome env (attempts s)")
    case (CredentialsFail e)
    then show ?thesis
      using False cold
      by (simp add: step_def getPool_call_def initializePool_start_def initializePool_finish_def
            getPool_resume_def Let_def)
  next
    case (ConnectFail e)
    then show ?thesis
      using False cold
      by (simp add: step_def getPool_call_def initializePool_start_def initializePool_finish_def
            getPool_resume_def Let_def)
  next
    case Connected
    with nc show ?thesis by simp
  qed
qed

text \<open>
  Instance of C7: the first test connection times out; the retry requests the
  credentials again, connects, and its pool becomes the singleton.
\<close>

theorem C7_failed_initialization_is_retried_witness:
  "pool initial = None \<and> \<not> isInitializing initial \<and>
   outcome flaky (attempts initial) = ConnectFail ''timeout'' \<and>
   run flaky [GetPool, InitFinishes, OwnerResumes] initial =
     ([Called (StartsInit 0), Settled 0 (Rejected ''timeout''), OwnerGot (Inl ''timeout'')],
      \<lparr>pool = None, isInitializing = False, initPromise = None,
       attempts = 1, secretResolutions = 1, poolConstructions = 1\<rparr>) \<and>
   run flaky [GetPool, InitFinishes, OwnerResumes]
      \<lparr>pool = None, isInitializing = False, initPromise = None,
       attempts = 1, secretResolutions = 1, poolConstructions = 1\<rparr> =
     ([Called (StartsInit 1), Settled 1 (Fulfilled 1), OwnerGot (Inr 1)],
      \<lparr>pool = Some 1, isInitializing = False, initPromise = None,
       attempts = 2, secretResolutions = 2, poolConstructions = 2\<rparr>)"
proof -
  let ?s1 = "\<lparr>pool = None, isInitializing = False, initPromise = None,
       attempts = 1, secretResolutions = 1, poolConstructions = 1\<rparr>"
  have h1: "pool initial = None" and h2: "\<not> isInitializing initial"
    by (simp_all add: initial_def)
  have h3: "dbSecretName flaky = [] \<or> outcome flaky (attempts initial) \<noteq> Connected"
    by (simp add: flaky_def initial_def)
  have h4: "outcome flaky (attempts initial) = ConnectFail ''timeout''"
    by (simp add: flaky_def initial_def)
  have env: "dbSecretName flaky \<noteq> [] \<and> outcome flaky (Suc (attempts initial)) = Connected"
    by (simp add: flaky_def initial_def)
  have r: "run flaky [GetPool, InitFinishes, OwnerResumes] initial =
     ([Called (StartsInit 0), Settled 0 (Rejected ''timeout''), OwnerGot (Inl ''timeout'')], ?s1)"
    by (simp add: step_def getPool_call_def initializePool_start_def initializePool_finish_def
          getPool_resume_def Let_def flaky_def initial_def)
  obtain ob e s' where f:
      "run flaky [GetPool, InitFinishes, OwnerResumes] initial =
             ([Called (StartsInit (attempts initial)), ob, OwnerGot (Inl e)], s')"
      "dbSecretName flaky \<noteq> [] \<and> outcome flaky (Suc (attempts initial)) = Connected \<longrightarrow>
              run flaky [GetPool, InitFinishes, OwnerResumes] s' =
                ([Called (StartsInit (Suc (attempts initial))),
                  Settled (Suc (attempts initial)) (Fulfilled (Suc (attempts initial))),
                  OwnerGot (Inr (Suc (attempts initial)))],
                 s'\<lparr>pool := Some (Suc (attempts initial)), attempts := Suc (Suc (attempts initial)),
                    secretResolutions := Suc (Suc (secretResolutions initial)),
                    poolConstructions := Suc (poolConstructions s')\<rparr>)"
    using C7_failed_initialization_is_retried [OF h1 h2 h3] by blast
  have s': "s' = ?s1" using f(1) r by simp
  have retry: "run flaky [GetPool, InitFinishes, OwnerResumes] ?s1 =
     ([Called (StartsInit 1), Settled 1 (Fulfilled 1), OwnerGot (Inr 1)],
      \<lparr>pool = Some 1, isInitializing = False, initPromise = None,
       attempts = 2, secretResolutions = 2, poolConstructions = 2\<rparr>)"
    using f(2) env unfolding s' by (simp add: initial_def)
  show ?thesis using h1 h2 h4 r retry by blast
qed

end
